theory Spec2Isabelle
  imports Complex_Main
begin

section \<open>JavaScript values read by the shape\<close>

text \<open>
  A JavaScript number as the shape sees it.  \<open>None\<close> stands for a value that is not a
  number: \<open>undefined\<close> (what an array read outside the array returns) or \<open>NaN\<close> (what
  arithmetic on \<open>undefined\<close> produces).  Numbers themselves are taken as reals; the
  rounding of IEEE doubles is not part of the model.
\<close>

type_synonym jsnum = "real option"

text \<open>A point sequence is a flat array \<open>[x0, y0, x1, y1, ...]\<close>.\<close>

type_synonym ring = "jsnum list"

text \<open>\<open>a[i]\<close>: reading an array outside \<open>0 .. length - 1\<close> yields \<open>undefined\<close>, never an error.\<close>

definition js_index :: "'a option list \<Rightarrow> int \<Rightarrow> 'a option" where
  "js_index a i = (if 0 \<le> i \<and> i < int (length a) then a ! nat i else None)"

text \<open>\<open>a[i] = v\<close>: a write past the end extends the array, the skipped slots stay empty.\<close>

definition js_assign :: "'a option list \<Rightarrow> nat \<Rightarrow> 'a \<Rightarrow> 'a option list" where
  "js_assign a i v =
     (if i < length a then a[i := Some v]
      else a @ replicate (i - length a) None @ [Some v])"

definition Math_min :: "jsnum \<Rightarrow> jsnum \<Rightarrow> jsnum" where
  "Math_min a b =
     (case a of None \<Rightarrow> None
      | Some u \<Rightarrow> (case b of None \<Rightarrow> None | Some v \<Rightarrow> Some (min u v)))"

definition Math_max :: "jsnum \<Rightarrow> jsnum \<Rightarrow> jsnum" where
  "Math_max a b =
     (case a of None \<Rightarrow> None
      | Some u \<Rightarrow> (case b of None \<Rightarrow> None | Some v \<Rightarrow> Some (max u v)))"

definition js_minus :: "jsnum \<Rightarrow> jsnum \<Rightarrow> jsnum" where
  "js_minus a b =
     (case a of None \<Rightarrow> None
      | Some u \<Rightarrow> (case b of None \<Rightarrow> None | Some v \<Rightarrow> Some (u - v)))"

text \<open>\<open>Math.round\<close> rounds to the nearest integer, halves upwards: \<open>floor (x + 1/2)\<close>.\<close>

definition Math_round :: "jsnum \<Rightarrow> jsnum" where
  "Math_round a = (case a of None \<Rightarrow> None | Some u \<Rightarrow> Some (of_int (round u)))"

section \<open>The shape and its drawing surface\<close>

text \<open>
  The attributes registered by \<open>Konva.Factory.addGetterSetter\<close> (closed, bezier, tension,
  exterior, interiors) and the one cache entry the shape uses.  A slot of \<open>interiors\<close> is
  \<open>None\<close> where the array has no ring at that index.
\<close>

record PolyLine =
  attr_exterior :: ring
  attr_interiors :: "ring option list"
  attr_tension :: real
  attr_closed :: bool
  attr_bezier :: bool
  cache_tensionPoints :: "ring option"

text \<open>The calls made on the drawing context, in the order they are made.\<close>

datatype prim =
    BeginPath
  | MoveTo jsnum jsnum
  | LineTo jsnum jsnum
  | QuadraticCurveTo jsnum jsnum jsnum jsnum
  | BezierCurveTo jsnum jsnum jsnum jsnum jsnum jsnum
  | ClosePath
  | FillStrokeShape
  | StrokeShape

datatype error = Error string | TypeError

fun isBezier :: "prim \<Rightarrow> bool" where
  "isBezier (BezierCurveTo a b c d e f) = True"
| "isBezier p = False"

fun isQuadratic :: "prim \<Rightarrow> bool" where
  "isQuadratic (QuadraticCurveTo a b c d) = True"
| "isQuadratic p = False"

text \<open>The coordinates a call passes to the context.\<close>

fun prim_coords :: "prim \<Rightarrow> jsnum list" where
  "prim_coords (MoveTo a b) = [a, b]"
| "prim_coords (LineTo a b) = [a, b]"
| "prim_coords (QuadraticCurveTo a b c d) = [a, b, c, d]"
| "prim_coords (BezierCurveTo a b c d e f) = [a, b, c, d, e, f]"
| "prim_coords p = []"

section \<open>The host property system\<close>

text \<open>
  The getters generated by \<open>Konva.Factory.addGetterSetter\<close> read the attribute.  The
  defaults it is given (\<open>[]\<close>, \<open>[]\<close>, \<open>0\<close>, \<open>false\<close>, \<open>false\<close>) are the values of
  \<open>default_config\<close> below.
\<close>

definition getExterior :: "PolyLine \<Rightarrow> ring" where
  "getExterior s = attr_exterior s"

definition getInteriors :: "PolyLine \<Rightarrow> ring option list" where
  "getInteriors s = attr_interiors s"

definition getTension :: "PolyLine \<Rightarrow> real" where
  "getTension s = attr_tension s"

definition getClosed :: "PolyLine \<Rightarrow> bool" where
  "getClosed s = attr_closed s"

definition getBezier :: "PolyLine \<Rightarrow> bool" where
  "getBezier s = attr_bezier s"

text \<open>
  Modelled from the spec: \<open>Node._clearCache\<close> is not part of \<open>PolyLine.js\<close>.  The spec
  describes a memoized result that is invalidated: clearing removes the stored value.
\<close>

definition priv_clearCache :: "PolyLine \<Rightarrow> PolyLine" where
  "priv_clearCache s = s\<lparr>cache_tensionPoints := None\<rparr>"

text \<open>
  Modelled from the spec: \<open>Node._getCache\<close> is not part of \<open>PolyLine.js\<close>.  The spec
  describes a memoized result, recomputed lazily: a read returns the stored value when there
  is one and otherwise computes, stores and returns it.
\<close>

definition priv_getCache :: "(PolyLine \<Rightarrow> ring) \<Rightarrow> PolyLine \<Rightarrow> PolyLine \<times> ring" where
  "priv_getCache privateGetter s =
     (case cache_tensionPoints s of
        Some v \<Rightarrow> (s, v)
      | None \<Rightarrow> (let v = privateGetter s in (s\<lparr>cache_tensionPoints := Some v\<rparr>, v)))"

text \<open>
  The events \<open>___init\<close> subscribes to with
  \<open>this.on('pointsChange.konva tensionChange.konva closedChange.konva bezierChange.konva', ...)\<close>
  (\<open>.konva\<close> is the namespace of the handler, not part of the event's name); the handler
  clears the cache entry.
\<close>

definition subscribed :: "string list" where
  "subscribed = [''pointsChange'', ''tensionChange'', ''closedChange'', ''bezierChange'']"

text \<open>
  Modelled from the spec: the dispatch of an event to the handlers registered with \<open>on\<close>
  is not part of \<open>PolyLine.js\<close>.  The spec describes a subscription that notifies the
  shape of a change: an event reaches the handler exactly when its name is subscribed.
\<close>

definition fire :: "string \<Rightarrow> PolyLine \<Rightarrow> PolyLine" where
  "fire ev s = (if ev \<in> set subscribed then priv_clearCache s else s)"

text \<open>
  Modelled from the spec: the setters generated by \<open>Konva.Factory.addGetterSetter\<close> are
  not part of \<open>PolyLine.js\<close>.  The spec describes typed accessors plus a notification on
  change; the setter of attribute \<open>a\<close> stores the value and notifies under the name
  \<open>aChange\<close>, the names \<open>___init\<close> itself uses for tension, closed and bezier.
  \<open>addGetterSetter(Konva.PolyLine, 'exterior', [])\<close>:
\<close>

definition setExterior :: "ring \<Rightarrow> PolyLine \<Rightarrow> PolyLine" where
  "setExterior v s = fire (''exterior'' @ ''Change'') (s\<lparr>attr_exterior := v\<rparr>)"

text \<open>
  Modelled from the spec: as \<open>setExterior\<close>, for
  \<open>addGetterSetter(Konva.PolyLine, 'interiors', [])\<close>.
\<close>

definition setInteriors :: "ring option list \<Rightarrow> PolyLine \<Rightarrow> PolyLine" where
  "setInteriors v s = fire (''interiors'' @ ''Change'') (s\<lparr>attr_interiors := v\<rparr>)"

text \<open>
  Modelled from the spec: as \<open>setExterior\<close>, for
  \<open>addGetterSetter(Konva.PolyLine, 'tension', 0)\<close>.
\<close>

definition setTension :: "real \<Rightarrow> PolyLine \<Rightarrow> PolyLine" where
  "setTension v s = fire (''tension'' @ ''Change'') (s\<lparr>attr_tension := v\<rparr>)"

text \<open>
  Modelled from the spec: as \<open>setExterior\<close>, for
  \<open>addGetterSetter(Konva.PolyLine, 'closed', false)\<close>.
\<close>

definition setClosed :: "bool \<Rightarrow> PolyLine \<Rightarrow> PolyLine" where
  "setClosed v s = fire (''closed'' @ ''Change'') (s\<lparr>attr_closed := v\<rparr>)"

text \<open>
  Modelled from the spec: as \<open>setExterior\<close>, for
  \<open>addGetterSetter(Konva.PolyLine, 'bezier', false)\<close>.
\<close>

definition setBezier :: "bool \<Rightarrow> PolyLine \<Rightarrow> PolyLine" where
  "setBezier v s = fire (''bezier'' @ ''Change'') (s\<lparr>attr_bezier := v\<rparr>)"

text \<open>
  \<open>___init\<close>: the base constructor stores the attributes of the config, then the
  interiors are reset to a fresh empty array; the cache starts empty.
\<close>

definition init :: "PolyLine \<Rightarrow> PolyLine" where
  "init config = setInteriors [] (config\<lparr>cache_tensionPoints := None\<rparr>)"

definition default_config :: PolyLine where
  "default_config =
     \<lparr>attr_exterior = [], attr_interiors = [], attr_tension = 0,
      attr_closed = False, attr_bezier = False, cache_tensionPoints = None\<rparr>"

section \<open>Tension points\<close>

text \<open>
  Modelled from the spec: \<open>Konva.Util._getControlPoints\<close> is not part of
  \<open>PolyLine.js\<close>.  Section 4.1: from the previous, current and next point and the
  tension, the segment lengths \<open>d01\<close> and \<open>d12\<close>, the tangent from previous to next scaled
  by the tension and by each segment's share of the length, one control point behind and
  one ahead of the current point; the current point twice where a segment has length 0.
  An argument that is not a number makes every result not a number.
\<close>

definition Util_getControlPoints ::
  "jsnum \<Rightarrow> jsnum \<Rightarrow> jsnum \<Rightarrow> jsnum \<Rightarrow> jsnum \<Rightarrow> jsnum \<Rightarrow> real \<Rightarrow> jsnum list" where
  "Util_getControlPoints a0 b0 a1 b1 a2 b2 t =
     (if None \<in> set [a0, b0, a1, b1, a2, b2] then [None, None, None, None]
      else
        let x0 = the a0; y0 = the b0; x1 = the a1; y1 = the b1; x2 = the a2; y2 = the b2;
            d01 = sqrt ((x1 - x0)\<^sup>2 + (y1 - y0)\<^sup>2);
            d12 = sqrt ((x2 - x1)\<^sup>2 + (y2 - y1)\<^sup>2)
        in if d01 = 0 \<or> d12 = 0 then [Some x1, Some y1, Some x1, Some y1]
           else
             let fa = t * d01 / (d01 + d12);
                 fb = t * d12 / (d01 + d12)
             in [Some (x1 - fa * (x2 - x0)), Some (y1 - fa * (y2 - y0)),
                 Some (x1 + fb * (x2 - x0)), Some (y1 + fb * (y2 - y0))])"

text \<open>
  Modelled from the spec: \<open>Konva.Util._expandPoints\<close> is not part of \<open>PolyLine.js\<close>.
  Sections 4.2 and 4.3: for every point that has a neighbour on both sides, in order, the
  control point behind it, the point itself and the control point ahead of it, so that
  the list starts with the pair the opening quadratic segment takes and continues in
  groups of six.  Nothing for fewer than three points.
\<close>

fun Util_expandPoints :: "ring \<Rightarrow> real \<Rightarrow> ring" where
  "Util_expandPoints (x0 # y0 # x1 # y1 # x2 # y2 # rest) t =
     (let cp = Util_getControlPoints x0 y0 x1 y1 x2 y2 t
      in [js_index cp 0, js_index cp 1, x1, y1, js_index cp 2, js_index cp 3]
         @ Util_expandPoints (x1 # y1 # x2 # y2 # rest) t)"
| "Util_expandPoints p t = []"

definition priv_getTensionPointsClosed :: "PolyLine \<Rightarrow> ring" where
  "priv_getTensionPointsClosed s =
     (let p = getExterior s;
          len = int (length p);
          tension = getTension s;
          firstControlPoints =
            Util_getControlPoints (js_index p (len - 2)) (js_index p (len - 1))
              (js_index p 0) (js_index p 1) (js_index p 2) (js_index p 3) tension;
          lastControlPoints =
            Util_getControlPoints (js_index p (len - 4)) (js_index p (len - 3))
              (js_index p (len - 2)) (js_index p (len - 1)) (js_index p 0) (js_index p 1)
              tension;
          middle = Util_expandPoints p tension
      in [js_index firstControlPoints 2, js_index firstControlPoints 3]
         @ middle
         @ [js_index lastControlPoints 0, js_index lastControlPoints 1,
            js_index p (len - 2), js_index p (len - 1),
            js_index lastControlPoints 2, js_index lastControlPoints 3,
            js_index firstControlPoints 0, js_index firstControlPoints 1,
            js_index p 0, js_index p 1])"

definition priv_getTensionPoints :: "PolyLine \<Rightarrow> ring" where
  "priv_getTensionPoints s =
     (if getClosed s then priv_getTensionPointsClosed s
      else Util_expandPoints (getExterior s) (getTension s))"

definition getTensionPoints :: "PolyLine \<Rightarrow> PolyLine \<times> ring" where
  "getTensionPoints s = priv_getCache priv_getTensionPoints s"

section \<open>Rendering one ring\<close>

text \<open>
  \<open>context.bezierCurveTo(a[n++], a[n++], a[n++], a[n++], a[n++], a[n++])\<close>: six reads,
  left to right, after which \<open>n\<close> has grown by six.
\<close>

definition bezierCurveTo_from :: "ring \<Rightarrow> nat \<Rightarrow> prim" where
  "bezierCurveTo_from a n =
     BezierCurveTo (js_index a (int n)) (js_index a (int n + 1))
       (js_index a (int n + 2)) (js_index a (int n + 3))
       (js_index a (int n + 4)) (js_index a (int n + 5))"

text \<open>\<open>while (n < len - 2) context.bezierCurveTo(tp[n++], ..., tp[n++])\<close>.\<close>

function tensionLoop :: "ring \<Rightarrow> nat \<Rightarrow> prim list" where
  "tensionLoop tp n =
     (if int n < int (length tp) - 2
      then bezierCurveTo_from tp n # tensionLoop tp (n + 6)
      else [])"
  by pat_completeness auto
termination
  by (relation "measure (\<lambda>(tp, n). length tp - n)") auto

text \<open>\<open>while (n < length) context.bezierCurveTo(points[n++], ..., points[n++])\<close>.\<close>

function bezierLoop :: "ring \<Rightarrow> nat \<Rightarrow> prim list" where
  "bezierLoop points n =
     (if n < length points
      then bezierCurveTo_from points n # bezierLoop points (n + 6)
      else [])"
  by pat_completeness auto
termination
  by (relation "measure (\<lambda>(points, n). length points - n)") auto

text \<open>\<open>for (n = 2; n < length; n += 2) context.lineTo(points[n], points[n + 1])\<close>.\<close>

function lineLoop :: "ring \<Rightarrow> nat \<Rightarrow> prim list" where
  "lineLoop points n =
     (if n < length points
      then LineTo (js_index points (int n)) (js_index points (int n + 1))
           # lineLoop points (n + 2)
      else [])"
  by pat_completeness auto
termination
  by (relation "measure (\<lambda>(points, n). length points - n)") auto

declare tensionLoop.simps [simp del] bezierLoop.simps [simp del] lineLoop.simps [simp del]

text \<open>
  \<open>_renderLine(context, points)\<close>: the shape after the call (reading the tension points
  may fill the cache) and the calls made on the context.
\<close>

definition priv_renderLine :: "PolyLine \<Rightarrow> ring \<Rightarrow> PolyLine \<times> prim list" where
  "priv_renderLine s points =
     (let length0 = length points;
          tension = getTension s;
          closed = getClosed s;
          bezier = getBezier s
      in if length0 = 0 then (s, [])
         else
           let m = MoveTo (js_index points 0) (js_index points 1)
           in if tension \<noteq> 0 \<and> length0 > 4 then
                (let (s', tp) = getTensionPoints s;
                     len = int (length tp);
                     n = (if closed then 0 else 4)
                 in (s',
                     [m]
                     @ (if \<not> closed
                        then [QuadraticCurveTo (js_index tp 0) (js_index tp 1)
                                (js_index tp 2) (js_index tp 3)]
                        else [])
                     @ tensionLoop tp n
                     @ (if \<not> closed
                        then [QuadraticCurveTo (js_index tp (len - 2)) (js_index tp (len - 1))
                                (js_index points (int length0 - 2))
                                (js_index points (int length0 - 1))]
                        else [])))
              else if bezier then (s, m # bezierLoop points 2)
              else (s, m # lineLoop points 2))"

section \<open>Rendering the shape\<close>

text \<open>
  The loop of \<open>_sceneFunc\<close> over the interiors.  A slot without a ring makes
  \<open>_renderLine\<close> read \<open>length\<close> of \<open>undefined\<close>, a TypeError; the calls made before it
  stay made.
\<close>

fun interiorsLoop ::
  "PolyLine \<Rightarrow> ring \<Rightarrow> ring option list \<Rightarrow> PolyLine \<times> prim list \<times> error option" where
  "interiorsLoop s exterior [] = (s, [], None)"
| "interiorsLoop s exterior (None # rest) = (s, [], Some TypeError)"
| "interiorsLoop s exterior (Some r # rest) =
     (let (s1, ps) = priv_renderLine s r;
          cut = [LineTo (js_index r 0) (js_index r 1),
                 MoveTo (js_index exterior (int (length exterior) - 2))
                        (js_index exterior (int (length exterior) - 1))];
          (s2, qs, e) = interiorsLoop s1 exterior rest
      in (s2, ps @ cut @ qs, e))"

definition priv_sceneFunc :: "PolyLine \<Rightarrow> PolyLine \<times> prim list \<times> error option" where
  "priv_sceneFunc s =
     (let exterior = getExterior s;
          interiors = getInteriors s;
          closed = getClosed s;
          (s1, ps) = priv_renderLine s exterior;
          (s2, qs, e) = interiorsLoop s1 exterior interiors
      in case e of
           Some err \<Rightarrow> (s2, [BeginPath] @ ps @ qs, Some err)
         | None \<Rightarrow>
             (s2,
              [BeginPath] @ ps @ qs
              @ (if closed
                 then (if length interiors > 0
                       then [LineTo (js_index exterior 0) (js_index exterior 1)]
                       else [ClosePath])
                      @ [FillStrokeShape]
                 else [StrokeShape]),
              None))"

section \<open>The indexed accessor\<close>

text \<open>
  The arguments of a call \<open>interior(...)\<close>: none, an index, an index and a ring, or an
  index, a ring and \<open>k + 1\<close> further values.
\<close>

datatype arguments = Args0 | Args1 nat | Args2 nat ring | ArgsMore nat ring nat

fun arguments_length :: "arguments \<Rightarrow> nat" where
  "arguments_length Args0 = 0"
| "arguments_length (Args1 i) = 1"
| "arguments_length (Args2 i v) = 2"
| "arguments_length (ArgsMore i v k) = 3 + k"

fun arguments0 :: "arguments \<Rightarrow> nat" where
  "arguments0 (Args1 i) = i"
| "arguments0 (Args2 i v) = i"
| "arguments0 (ArgsMore i v k) = i"
| "arguments0 Args0 = 0"

fun arguments1 :: "arguments \<Rightarrow> ring" where
  "arguments1 (Args2 i v) = v"
| "arguments1 (ArgsMore i v k) = v"
| "arguments1 a = []"

text \<open>What \<open>interior\<close> returns: the slot read (\<open>None\<close> for \<open>undefined\<close>), or \<open>this\<close>.\<close>

datatype returned = Slot "ring option" | This

definition interior :: "arguments \<Rightarrow> PolyLine \<Rightarrow> PolyLine \<times> (error + returned)" where
  "interior args s =
     (let interiors = getInteriors s
      in if arguments_length args = 1
         then (s, Inr (Slot (js_index interiors (int (arguments0 args)))))
         else if arguments_length args = 2
         then (let interiors' = js_assign interiors (arguments0 args) (arguments1 args)
               in (setInteriors interiors' s, Inr This))
         else (s, Inl (Error ''Unknown operation polyline'')))"

section \<open>The bounding box\<close>

record rect =
  rect_x :: jsnum
  rect_y :: jsnum
  rect_width :: jsnum
  rect_height :: jsnum

text \<open>
  \<open>for (var i = 0; i < points.length / 2; i++)\<close>: the quotient is not truncated, so the
  test is \<open>2 * i < points.length\<close>.
\<close>

function scanLoop ::
  "ring \<Rightarrow> nat \<Rightarrow> jsnum \<Rightarrow> jsnum \<Rightarrow> jsnum \<Rightarrow> jsnum \<Rightarrow> jsnum \<times> jsnum \<times> jsnum \<times> jsnum" where
  "scanLoop points i minX maxX minY maxY =
     (if 2 * i < length points
      then (let x = js_index points (int i * 2);
                y = js_index points (int i * 2 + 1)
            in scanLoop points (i + 1) (Math_min minX x) (Math_max maxX x)
                 (Math_min minY y) (Math_max maxY y))
      else (minX, maxX, minY, maxY))"
  by pat_completeness auto
termination
  by (relation "measure (\<lambda>(points, i, a, b, c, d). length points - 2 * i)") auto

declare scanLoop.simps [simp del]

text \<open>The body of \<open>getSelfRect\<close> once the point list is chosen.\<close>

definition selfRectOf :: "ring \<Rightarrow> rect" where
  "selfRectOf points =
     (let minX = js_index points 0;
          maxX = js_index points 0;
          minY = js_index points 1;
          maxY = js_index points 1;
          (minX, maxX, minY, maxY) = scanLoop points 0 minX maxX minY maxY
      in \<lparr>rect_x = Math_round minX,
          rect_y = Math_round minY,
          rect_width = Math_round (js_minus maxX minX),
          rect_height = Math_round (js_minus maxY minY)\<rparr>)"

definition selfRectPoints :: "PolyLine \<Rightarrow> ring" where
  "selfRectPoints s =
     (if getTension s \<noteq> 0 then priv_getTensionPoints s else getExterior s)"

definition getSelfRect :: "PolyLine \<Rightarrow> rect" where
  "getSelfRect s = selfRectOf (selfRectPoints s)"




section \<open>Points of a sequence\<close>

text \<open>The points \<open>(x, y)\<close> of a flat sequence of even length, in order.\<close>

fun pairs :: "'a list \<Rightarrow> ('a \<times> 'a) list" where
  "pairs (x # y # rest) = (x, y) # pairs rest"
| "pairs p = []"

section \<open>Example shapes\<close>

text \<open>A shape with the given exterior, interiors, tension, closed and bezier, its cache empty.\<close>

definition shapeOf :: "ring \<Rightarrow> ring option list \<Rightarrow> real \<Rightarrow> bool \<Rightarrow> bool \<Rightarrow> PolyLine" where
  "shapeOf e i t c b =
     \<lparr>attr_exterior = e, attr_interiors = i, attr_tension = t, attr_closed = c,
      attr_bezier = b, cache_tensionPoints = None\<rparr>"


definition tri3 :: ring where
  "tri3 = [Some 0, Some 0, Some 10, Some 10, Some 20, Some 0]"

definition five5 :: ring where
  "five5 = [Some 0, Some 0, Some 1, Some 1, Some 2, Some 2, Some 3, Some 3, Some 4, Some 4]"

definition seven7 :: ring where
  "seven7 = [Some 0, Some 0, Some 1, Some 1, Some 2, Some 2, Some 3, Some 3, Some 4, Some 4,
             Some 5, Some 5, Some 6, Some 6]"

definition square4 :: ring where
  "square4 = [Some 0, Some 0, Some 100, Some 0, Some 100, Some 100, Some 0, Some 100]"

definition hole4 :: ring where
  "hole4 = [Some 25, Some 25, Some 75, Some 25, Some 75, Some 75, Some 25, Some 75]"

definition pent5 :: ring where
  "pent5 = [Some 0, Some 0, Some 10, Some 10, Some 20, Some 0, Some 30, Some 10, Some 40, Some 0]"

definition quad4 :: ring where
  "quad4 = [Some 0, Some 0, Some 10, Some 10, Some 20, Some 0, Some 30, Some 10]"

text \<open>
  A new shape; its exterior set to three points; its tension set to 1; its tension points
  read; its exterior set to four points.
\<close>

definition after_setExterior :: PolyLine where
  "after_setExterior =
     setExterior quad4
       (fst (getTensionPoints (setTension 1 (setExterior tri3 (init default_config)))))"

section \<open>The bezier mode as the specification words it\<close>

text \<open>
  One moveTo to the first point, then one bezierCurveTo per complete group of three points
  (six coordinates) after it; trailing coordinates that do not fill a group are dropped.
\<close>

fun spec_bezierGroups :: "ring \<Rightarrow> prim list" where
  "spec_bezierGroups (a # b # c # d # e # f # rest) =
     BezierCurveTo a b c d e f # spec_bezierGroups rest"
| "spec_bezierGroups p = []"

fun spec_bezierMode :: "ring \<Rightarrow> prim list" where
  "spec_bezierMode (x # y # rest) = MoveTo x y # spec_bezierGroups rest"
| "spec_bezierMode p = []"

section \<open>Composition of the rings as the specification words it\<close>

text \<open>
  After an interior ring's primitives, a drawn line from the ring's first point back out to
  the exterior's last point (the cut line), then an undrawn move to the exterior's last
  point.
\<close>

definition spec_cut :: "ring \<Rightarrow> ring \<Rightarrow> prim list" where
  "spec_cut exterior r =
     [LineTo (js_index r 0) (js_index r 1),
      LineTo (js_index exterior (int (length exterior) - 2))
             (js_index exterior (int (length exterior) - 1)),
      MoveTo (js_index exterior (int (length exterior) - 2))
             (js_index exterior (int (length exterior) - 1))]"

definition spec_render :: "PolyLine \<Rightarrow> ring list \<Rightarrow> prim list" where
  "spec_render s rs =
     snd (priv_renderLine s (getExterior s))
     @ concat (map (\<lambda>r. snd (priv_renderLine s r) @ spec_cut (getExterior s) r) rs)
     @ (if getClosed s
        then (if rs \<noteq> [] then [LineTo (js_index (getExterior s) 0) (js_index (getExterior s) 1)]
              else [ClosePath])
             @ [FillStrokeShape]
        else [StrokeShape])"

section \<open>The cache during one rendering\<close>

text \<open>The shape once its tension points have been read: unchanged, or its empty cache filled.\<close>

definition warmed :: "PolyLine \<Rightarrow> PolyLine \<Rightarrow> bool" where
  "warmed s s' \<longleftrightarrow>
     s' = s \<or> (cache_tensionPoints s = None
               \<and> s' = s\<lparr>cache_tensionPoints := Some (priv_getTensionPoints s)\<rparr>)"

section \<open>Minimum and maximum of a set of coordinates\<close>

text \<open>
  The least and the greatest of a set of coordinates; not a number where the set is empty or
  holds a value that is not a number.
\<close>

definition coordMin :: "jsnum set \<Rightarrow> jsnum" where
  "coordMin S = (if S = {} \<or> None \<in> S then None else Some (Min (the ` S)))"

definition coordMax :: "jsnum set \<Rightarrow> jsnum" where
  "coordMax S = (if S = {} \<or> None \<in> S then None else Some (Max (the ` S)))"

section \<open>Array reads and the three loops\<close>

lemma js_index_nat:
  "js_index a (int n) = (if n < length a then a ! n else None)"
  by (simp add: js_index_def)


lemma drop_two:
  "n + 1 < length points \<Longrightarrow>
   drop n points = points ! n # points ! (n + 1) # drop (n + 2) points"
  by (simp add: Cons_nth_drop_Suc)


lemma bezierLoop_unfold:
  "n < length points \<Longrightarrow>
   bezierLoop points n = bezierCurveTo_from points n # bezierLoop points (n + 6)"
  by (subst bezierLoop.simps) simp

lemma bezierLoop_stop: "length points \<le> n \<Longrightarrow> bezierLoop points n = []"
  by (subst bezierLoop.simps) simp

lemma bezierLoop_map:
  "length points \<le> n + 6 * m \<Longrightarrow> (0 < m \<Longrightarrow> n + 6 * (m - 1) < length points) \<Longrightarrow>
   bezierLoop points n = map (\<lambda>k. bezierCurveTo_from points (n + 6 * k)) [0 ..< m]"
proof (induction m arbitrary: n)
  case 0
  then show ?case by (simp add: bezierLoop_stop)
next
  case (Suc m)
  from Suc.prems(2) have lt: "n < length points" by simp
  have ih: "bezierLoop points (n + 6) = map (\<lambda>k. bezierCurveTo_from points (n + 6 + 6 * k)) [0 ..< m]"
  proof (rule Suc.IH)
    show "length points \<le> n + 6 + 6 * m" using Suc.prems(1) by simp
    show "n + 6 + 6 * (m - 1) < length points" if "0 < m"
      using Suc.prems(2) that by (cases m) simp_all
  qed
  have e: "(\<lambda>k. bezierCurveTo_from points (n + 6 * Suc k)) = (\<lambda>k. bezierCurveTo_from points (n + 6 + 6 * k))"
    by (simp add: add.assoc)
  show ?case
    by (simp only: bezierLoop_unfold [OF lt] ih map_upt_Suc e mult_0_right add_0_right)
qed

lemma tensionLoop_unfold:
  "n + 2 < length tp \<Longrightarrow>
   tensionLoop tp n = bezierCurveTo_from tp n # tensionLoop tp (n + 6)"
  by (subst tensionLoop.simps) simp

lemma tensionLoop_stop: "length tp \<le> n + 2 \<Longrightarrow> tensionLoop tp n = []"
  by (subst tensionLoop.simps) simp

lemma tensionLoop_map:
  "length tp \<le> n + 2 + 6 * m \<Longrightarrow> (0 < m \<Longrightarrow> n + 2 + 6 * (m - 1) < length tp) \<Longrightarrow>
   tensionLoop tp n = map (\<lambda>k. bezierCurveTo_from tp (n + 6 * k)) [0 ..< m]"
proof (induction m arbitrary: n)
  case 0
  then show ?case by (simp add: tensionLoop_stop)
next
  case (Suc m)
  from Suc.prems(2) have lt: "n + 2 < length tp" by simp
  have ih: "tensionLoop tp (n + 6) = map (\<lambda>k. bezierCurveTo_from tp (n + 6 + 6 * k)) [0 ..< m]"
  proof (rule Suc.IH)
    show "length tp \<le> n + 6 + 2 + 6 * m" using Suc.prems(1) by simp
    show "n + 6 + 2 + 6 * (m - 1) < length tp" if "0 < m"
      using Suc.prems(2) that by (cases m) simp_all
  qed
  have e: "(\<lambda>k. bezierCurveTo_from tp (n + 6 * Suc k)) = (\<lambda>k. bezierCurveTo_from tp (n + 6 + 6 * k))"
    by (simp add: add.assoc)
  show ?case
    by (simp only: tensionLoop_unfold [OF lt] ih map_upt_Suc e mult_0_right add_0_right)
qed


section \<open>Dispatch of the ring renderer\<close>


lemma renderLine_tension:
  "getTension s \<noteq> 0 \<Longrightarrow> length points > 4 \<Longrightarrow>
   priv_renderLine s points =
     (fst (getTensionPoints s),
      MoveTo (js_index points 0) (js_index points 1)
      # (let tp = snd (getTensionPoints s) in
         if getClosed s then tensionLoop tp 0
         else QuadraticCurveTo (js_index tp 0) (js_index tp 1) (js_index tp 2) (js_index tp 3)
              # tensionLoop tp 4
              @ [QuadraticCurveTo (js_index tp (int (length tp) - 2)) (js_index tp (int (length tp) - 1))
                   (js_index points (int (length points) - 2))
                   (js_index points (int (length points) - 1))]))"
  by (auto simp: priv_renderLine_def Let_def case_prod_beta)

lemma renderLine_bezier:
  "points \<noteq> [] \<Longrightarrow> \<not> (getTension s \<noteq> 0 \<and> length points > 4) \<Longrightarrow> getBezier s \<Longrightarrow>
   priv_renderLine s points =
     (s, MoveTo (js_index points 0) (js_index points 1) # bezierLoop points 2)"
  by (auto simp: priv_renderLine_def Let_def)





section \<open>The bezier mode\<close>

lemma js_index_in_range: "n < length a \<Longrightarrow> js_index a (int n) = a ! n"
  by (simp add: js_index_def)

lemma js_index_past_end: "length a \<le> n \<Longrightarrow> js_index a (int n) = None"
  by (simp add: js_index_def)

lemma bezierCurveTo_from_nat:
  "bezierCurveTo_from a n =
     BezierCurveTo (js_index a (int n)) (js_index a (int (n + 1))) (js_index a (int (n + 2)))
       (js_index a (int (n + 3))) (js_index a (int (n + 4))) (js_index a (int (n + 5)))"
  unfolding bezierCurveTo_from_def by (simp only: of_nat_add of_nat_numeral of_nat_1)

lemma bezierCurveTo_from_in_range:
  "n + 5 < length a \<Longrightarrow>
   bezierCurveTo_from a n =
     BezierCurveTo (a ! n) (a ! (n + 1)) (a ! (n + 2)) (a ! (n + 3)) (a ! (n + 4)) (a ! (n + 5))"
proof -
  assume h: "n + 5 < length a"
  then have "n < length a" "n + 1 < length a" "n + 2 < length a" "n + 3 < length a"
    "n + 4 < length a" by simp_all
  with h show ?thesis
    by (simp only: bezierCurveTo_from_nat js_index_in_range)
qed

lemma drop_six:
  "n + 5 < length a \<Longrightarrow>
   drop n a = a ! n # a ! (n + 1) # a ! (n + 2) # a ! (n + 3) # a ! (n + 4) # a ! (n + 5)
              # drop (n + 6) a"
proof -
  assume h: "n + 5 < length a"
  have "drop n a = a ! n # a ! (n + 1) # drop (n + 2) a"
    using h by (intro drop_two) simp
  also have "drop (n + 2) a = a ! (n + 2) # a ! (n + 2 + 1) # drop (n + 2 + 2) a"
    using h by (intro drop_two) simp
  also have "drop (n + 2 + 2) a = a ! (n + 2 + 2) # a ! (n + 2 + 2 + 1) # drop (n + 2 + 2 + 2) a"
    using h by (intro drop_two) simp
  finally have c: "drop n a = a ! n # a ! (n + 1) # a ! (n + 2) # a ! (n + 2 + 1)
      # a ! (n + 2 + 2) # a ! (n + 2 + 2 + 1) # drop (n + 2 + 2 + 2) a" .
  have "n + 2 + 1 = n + 3" "n + 2 + 2 = n + 4" "n + 2 + 2 + 1 = n + 5" "n + 2 + 2 + 2 = n + 6"
    by simp_all
  with c show ?thesis by (simp only:)
qed

lemma bezierLoop_complete:
  "n \<le> length points \<Longrightarrow> length points = n + 6 * m \<Longrightarrow>
   bezierLoop points n = spec_bezierGroups (drop n points)"
proof (induction m arbitrary: n)
  case 0
  then show ?case by (simp add: bezierLoop_stop)
next
  case (Suc m)
  then have r: "n + 5 < length points" and lt: "n < length points" by simp_all
  have ih: "bezierLoop points (n + 6) = spec_bezierGroups (drop (n + 6) points)"
    using Suc.prems by (intro Suc.IH) simp_all
  show ?case
    by (simp only: bezierLoop_unfold [OF lt] ih drop_six [OF r] bezierCurveTo_from_in_range [OF r]
        spec_bezierGroups.simps)
qed

lemma groups_bounds:
  fixes L :: nat
  shows "L \<le> 2 + 6 * ((L + 3) div 6)"
    and "0 < (L + 3) div 6 \<Longrightarrow> 2 + 6 * ((L + 3) div 6 - 1) < L"
proof -
  define m where "m = (L + 3) div 6"
  define r where "r = (L + 3) mod 6"
  have e: "L + 3 = 6 * m + r" by (simp add: m_def r_def)
  have b: "r < 6" by (simp add: r_def)
  from e b show "L \<le> 2 + 6 * ((L + 3) div 6)" unfolding m_def [symmetric] by linarith
  show "2 + 6 * ((L + 3) div 6 - 1) < L" if "0 < (L + 3) div 6"
  proof -
    from that obtain k where k: "m = Suc k" unfolding m_def [symmetric] by (cases m) auto
    with e b show ?thesis unfolding m_def [symmetric] by simp
  qed
qed

lemma groups_incomplete:
  fixes L :: nat
  assumes "2 \<le> L" "(L - 2) mod 6 \<noteq> 0"
  shows "0 < (L + 3) div 6" and "L \<le> 6 * ((L + 3) div 6) + 1"
proof -
  define q where "q = (L - 2) div 6"
  define r where "r = (L - 2) mod 6"
  have e: "L - 2 = 6 * q + r" by (simp add: q_def r_def)
  have b: "r < 6" "0 < r" using assms(2) by (simp_all add: r_def)
  from e assms(1) have L: "L + 3 = 6 * q + r + 5" by linarith
  have m: "(L + 3) div 6 = Suc q"
  proof (rule div_nat_eqI)
    show "6 * Suc q \<le> L + 3" using L b by simp
    show "L + 3 < 6 * Suc (Suc q)" using L b by simp
  qed
  show "0 < (L + 3) div 6" by (simp add: m)
  have "L \<le> 6 * Suc q + 1" using L b by simp
  then show "L \<le> 6 * ((L + 3) div 6) + 1" by (simp only: m)
qed

lemma groups_complete:
  fixes L :: nat
  assumes "2 \<le> L" "(L - 2) mod 6 = 0"
  shows "L = 2 + 6 * ((L - 2) div 6)"
  using assms by (metis add.commute le_add_diff_inverse2 mult_div_mod_eq add_0_right)

text \<open>
  C3 (amended).  For a non-empty sequence with tension 0 and bezier set, the emission is one
  moveTo to the first point followed by one bezierCurveTo per started group of six
  coordinates after the first point, \<open>(length + 3) div 6\<close> calls.  Where the coordinates
  after the first point form whole groups of six, that is one call per group of three
  points and every read is inside the sequence; otherwise the last call is still made and
  takes \<open>undefined\<close> for the coordinates past the end.  Seven points give one moveTo and
  two bezierCurveTo.
\<close>

theorem C3_bezier_groups:
  assumes "points \<noteq> []" and "getTension s = 0" and "getBezier s"
  shows "priv_renderLine s points
           = (s, MoveTo (js_index points 0) (js_index points 1)
                 # map (\<lambda>k. bezierCurveTo_from points (2 + 6 * k))
                     [0 ..< (length points + 3) div 6])
         \<and> (2 \<le> length points \<and> (length points - 2) mod 6 = 0 \<longrightarrow>
              snd (priv_renderLine s points) = spec_bezierMode points)
         \<and> (2 \<le> length points \<and> (length points - 2) mod 6 \<noteq> 0 \<longrightarrow>
              isBezier (last (snd (priv_renderLine s points)))
              \<and> None \<in> set (prim_coords (last (snd (priv_renderLine s points)))))
         \<and> (points = [x0, y0, x1, y1, x2, y2, x3, y3, x4, y4, x5, y5, x6, y6] \<longrightarrow>
              snd (priv_renderLine s points)
                = [MoveTo x0 y0, BezierCurveTo x1 y1 x2 y2 x3 y3,
                   BezierCurveTo x4 y4 x5 y5 x6 y6])"
proof -
  let ?m = "(length points + 3) div 6"
  have r: "priv_renderLine s points
             = (s, MoveTo (js_index points 0) (js_index points 1) # bezierLoop points 2)"
    using assms by (intro renderLine_bezier) simp_all
  have loop: "bezierLoop points 2 = map (\<lambda>k. bezierCurveTo_from points (2 + 6 * k)) [0 ..< ?m]"
    by (rule bezierLoop_map) (rule groups_bounds)+
  have complete: "snd (priv_renderLine s points) = spec_bezierMode points"
    if h: "2 \<le> length points" "(length points - 2) mod 6 = 0"
  proof -
    from h(1) obtain x y rest where p: "points = x # y # rest"
      by (cases points; cases "tl points") auto
    have "bezierLoop points 2 = spec_bezierGroups (drop 2 points)"
      using h(1) groups_complete [OF h] by (intro bezierLoop_complete [where m = "(length points - 2) div 6"])
    with r show ?thesis by (simp add: p js_index_def)
  qed
  have incomplete: "isBezier (last (snd (priv_renderLine s points)))
              \<and> None \<in> set (prim_coords (last (snd (priv_renderLine s points))))"
    if h: "2 \<le> length points" "(length points - 2) mod 6 \<noteq> 0"
  proof -
    from groups_incomplete [OF h] have m0: "0 < ?m" and up: "length points \<le> 6 * ?m + 1"
      by simp_all
    from m0 obtain k where k: "?m = Suc k" by (cases ?m) auto
    have l: "last (snd (priv_renderLine s points)) = bezierCurveTo_from points (2 + 6 * k)"
      by (simp add: r loop k del: upt_Suc) (simp add: last_map)
    have "js_index points (int (2 + 6 * k + 5)) = None"
      using up k by (intro js_index_past_end) simp
    then show ?thesis
      by (simp add: l bezierCurveTo_from_nat)
  qed
  have seven: "snd (priv_renderLine s points)
                = [MoveTo x0 y0, BezierCurveTo x1 y1 x2 y2 x3 y3,
                   BezierCurveTo x4 y4 x5 y5 x6 y6]"
    if p: "points = [x0, y0, x1, y1, x2, y2, x3, y3, x4, y4, x5, y5, x6, y6]"
  proof -
    have "snd (priv_renderLine s points) = spec_bezierMode points"
      by (rule complete) (simp_all add: p)
    then show ?thesis by (simp add: p)
  qed
  from r loop complete incomplete seven show ?thesis by simp
qed

theorem C3_bezier_groups_witness:
  "(seven7 \<noteq> [] \<and> getTension (shapeOf seven7 [] 0 False True) = 0
      \<and> getBezier (shapeOf seven7 [] 0 False True)
      \<and> 2 \<le> length seven7 \<and> (length seven7 - 2) mod 6 = 0)
   \<and> snd (priv_renderLine (shapeOf seven7 [] 0 False True) seven7) = spec_bezierMode seven7
   \<and> (five5 \<noteq> [] \<and> getTension (shapeOf five5 [] 0 False True) = 0
      \<and> getBezier (shapeOf five5 [] 0 False True)
      \<and> 2 \<le> length five5 \<and> (length five5 - 2) mod 6 \<noteq> 0)
   \<and> None \<in> set (prim_coords (last (snd (priv_renderLine (shapeOf five5 [] 0 False True) five5))))"
proof -
  have h7: "seven7 \<noteq> []" "getTension (shapeOf seven7 [] 0 False True) = 0"
    "getBezier (shapeOf seven7 [] 0 False True)"
    by (simp_all add: seven7_def shapeOf_def getTension_def getBezier_def)
  have h5: "five5 \<noteq> []" "getTension (shapeOf five5 [] 0 False True) = 0"
    "getBezier (shapeOf five5 [] 0 False True)"
    by (simp_all add: five5_def shapeOf_def getTension_def getBezier_def)
  have l7: "length seven7 = 14" by (simp add: seven7_def)
  have l5: "length five5 = 10" by (simp add: five5_def)
  have c7: "snd (priv_renderLine (shapeOf seven7 [] 0 False True) seven7) = spec_bezierMode seven7"
    using C3_bezier_groups [OF h7, THEN conjunct2, THEN conjunct1] by (simp add: l7)
  have c5: "None \<in> set (prim_coords (last (snd (priv_renderLine (shapeOf five5 [] 0 False True) five5))))"
    using C3_bezier_groups [OF h5, THEN conjunct2, THEN conjunct2, THEN conjunct1]
    by (simp add: l5)
  from h7 h5 c7 c5 show ?thesis by (simp add: l7 l5)
qed

text \<open>
  The claim as stated fails on five points: the four points after the first hold one
  complete group of three, yet two bezierCurveTo calls are made, the second reading four
  coordinates past the end of the sequence.
\<close>

theorem C3_counterexample:
  "snd (priv_renderLine (shapeOf five5 [] 0 False True) five5)
     = [MoveTo (Some 0) (Some 0),
        BezierCurveTo (Some 1) (Some 1) (Some 2) (Some 2) (Some 3) (Some 3),
        BezierCurveTo (Some 4) (Some 4) None None None None]
   \<and> snd (priv_renderLine (shapeOf five5 [] 0 False True) five5) \<noteq> spec_bezierMode five5"
  by (simp add: priv_renderLine_def shapeOf_def five5_def getTension_def getBezier_def
      getClosed_def Let_def bezierLoop.simps bezierCurveTo_from_def js_index_def)

section \<open>Rendering the shape: the cache during one rendering\<close>

lemma priv_getTensionPoints_cache:
  "priv_getTensionPoints (s\<lparr>cache_tensionPoints := c\<rparr>) = priv_getTensionPoints s"
  by (simp add: priv_getTensionPoints_def priv_getTensionPointsClosed_def getClosed_def
      getExterior_def getTension_def)

lemma getTensionPoints_warmed:
  "warmed s s' \<Longrightarrow>
   snd (getTensionPoints s') = snd (getTensionPoints s) \<and> warmed s (fst (getTensionPoints s'))"
  by (auto simp: warmed_def getTensionPoints_def priv_getCache_def Let_def
      priv_getTensionPoints_cache split: option.splits)

lemma warmed_attrs:
  "warmed s s' \<Longrightarrow>
   getTension s' = getTension s \<and> getClosed s' = getClosed s \<and> getBezier s' = getBezier s
   \<and> getExterior s' = getExterior s \<and> getInteriors s' = getInteriors s"
  by (auto simp: warmed_def getTension_def getClosed_def getBezier_def getExterior_def
      getInteriors_def)

lemma renderLine_warmed:
  assumes "warmed s s'"
  shows "snd (priv_renderLine s' r) = snd (priv_renderLine s r)
         \<and> warmed s (fst (priv_renderLine s' r))"
proof (cases "r \<noteq> [] \<and> getTension s \<noteq> 0 \<and> length r > 4")
  case True
  with assms getTensionPoints_warmed [OF assms] warmed_attrs [OF assms] show ?thesis
    by (simp add: renderLine_tension)
next
  case False
  with assms warmed_attrs [OF assms] show ?thesis
    by (cases "r = []") (auto simp: priv_renderLine_def Let_def)
qed

lemma warmed_refl: "warmed s s"
  by (simp add: warmed_def)

lemma interiorsLoop_rings:
  "warmed s s' \<Longrightarrow>
   snd (interiorsLoop s' exterior (map Some rs))
     = (concat (map (\<lambda>r. snd (priv_renderLine s r)
                          @ [LineTo (js_index r 0) (js_index r 1),
                             MoveTo (js_index exterior (int (length exterior) - 2))
                                    (js_index exterior (int (length exterior) - 1))]) rs),
        None)"
proof (induction rs arbitrary: s')
  case Nil
  then show ?case by simp
next
  case (Cons r rs)
  from renderLine_warmed [OF Cons.prems, of r]
  have p: "snd (priv_renderLine s' r) = snd (priv_renderLine s r)"
    and w: "warmed s (fst (priv_renderLine s' r))" by simp_all
  from Cons.IH [OF w] p show ?case
    by (simp add: case_prod_beta Let_def)
qed

text \<open>
  C2 (amended).  For every exterior ring, list of interior rings and closed flag, rendering
  emits beginPath; the exterior ring's primitives; then for each interior ring in insertion
  order that ring's primitives, a drawn line to the interior ring's own first point and an
  undrawn move to the exterior's last point; then, if closed with at least one interior
  ring, a drawn line to the exterior's first point and fill-and-stroke, if closed with no
  interior ring a native path close and fill-and-stroke, and if not closed stroke only.
  No error is raised.
\<close>

theorem C2_sceneFunc:
  assumes "getInteriors s = map Some rs"
  shows "snd (priv_sceneFunc s)
         = ([BeginPath]
            @ snd (priv_renderLine s (getExterior s))
            @ concat (map (\<lambda>r. snd (priv_renderLine s r)
                          @ [LineTo (js_index r 0) (js_index r 1),
                             MoveTo (js_index (getExterior s) (int (length (getExterior s)) - 2))
                                    (js_index (getExterior s) (int (length (getExterior s)) - 1))])
                      rs)
            @ (if getClosed s
               then (if rs \<noteq> []
                     then [LineTo (js_index (getExterior s) 0) (js_index (getExterior s) 1)]
                     else [ClosePath])
                    @ [FillStrokeShape]
               else [StrokeShape]),
            None)"
proof -
  have w: "warmed s (fst (priv_renderLine s (getExterior s)))"
    using renderLine_warmed [OF warmed_refl] by simp
  from interiorsLoop_rings [OF w, of "getExterior s" rs] assms show ?thesis
    by (simp add: priv_sceneFunc_def case_prod_beta Let_def)
qed

theorem C2_sceneFunc_witness:
  "getInteriors (shapeOf square4 [Some hole4] 0 True False) = map Some [hole4]
   \<and> snd (priv_sceneFunc (shapeOf square4 [Some hole4] 0 True False))
     = ([BeginPath,
         MoveTo (Some 0) (Some 0), LineTo (Some 100) (Some 0), LineTo (Some 100) (Some 100),
         LineTo (Some 0) (Some 100),
         MoveTo (Some 25) (Some 25), LineTo (Some 75) (Some 25), LineTo (Some 75) (Some 75),
         LineTo (Some 25) (Some 75),
         LineTo (Some 25) (Some 25), MoveTo (Some 0) (Some 100),
         LineTo (Some 0) (Some 0), FillStrokeShape], None)"
proof -
  have h: "getInteriors (shapeOf square4 [Some hole4] 0 True False) = map Some [hole4]"
    by (simp add: getInteriors_def shapeOf_def)
  have e: "getExterior (shapeOf square4 [Some hole4] 0 True False) = square4"
    "getClosed (shapeOf square4 [Some hole4] 0 True False)"
    by (simp_all add: getExterior_def getClosed_def shapeOf_def)
  have r: "snd (priv_renderLine (shapeOf square4 [Some hole4] 0 True False) square4)
           = [MoveTo (Some 0) (Some 0), LineTo (Some 100) (Some 0), LineTo (Some 100) (Some 100),
              LineTo (Some 0) (Some 100)]"
    "snd (priv_renderLine (shapeOf square4 [Some hole4] 0 True False) hole4)
           = [MoveTo (Some 25) (Some 25), LineTo (Some 75) (Some 25), LineTo (Some 75) (Some 75),
              LineTo (Some 25) (Some 75)]"
    by (simp_all add: priv_renderLine_def shapeOf_def square4_def hole4_def getTension_def
        getBezier_def getClosed_def Let_def lineLoop.simps js_index_def)
  have j: "js_index square4 0 = Some 0" "js_index square4 1 = Some 0"
    "js_index square4 (int (length square4) - 2) = Some 0"
    "js_index square4 (int (length square4) - 1) = Some 100"
    "js_index hole4 0 = Some 25" "js_index hole4 1 = Some 25"
    by (simp_all add: square4_def hole4_def js_index_def)
  from C2_sceneFunc [OF h] show ?thesis
    by (simp add: h e r j)
qed

text \<open>
  The claim as stated fails on the square with one square hole: after the hole's
  primitives the line drawn goes to the hole's first point (25, 25); no line is drawn to the
  exterior's last point (0, 100), which is only moved to.
\<close>

theorem C2_counterexample:
  "fst (snd (priv_sceneFunc (shapeOf square4 [Some hole4] 0 True False)))
     = [BeginPath,
        MoveTo (Some 0) (Some 0), LineTo (Some 100) (Some 0), LineTo (Some 100) (Some 100),
        LineTo (Some 0) (Some 100),
        MoveTo (Some 25) (Some 25), LineTo (Some 75) (Some 25), LineTo (Some 75) (Some 75),
        LineTo (Some 25) (Some 75),
        LineTo (Some 25) (Some 25), MoveTo (Some 0) (Some 100),
        LineTo (Some 0) (Some 0), FillStrokeShape]
   \<and> fst (snd (priv_sceneFunc (shapeOf square4 [Some hole4] 0 True False)))
       \<noteq> BeginPath # spec_render (shapeOf square4 [Some hole4] 0 True False) [hole4]
   \<and> fst (snd (priv_sceneFunc (shapeOf square4 [Some hole4] 0 True False)))
       \<noteq> spec_render (shapeOf square4 [Some hole4] 0 True False) [hole4]"
  by (simp add: priv_sceneFunc_def spec_render_def spec_cut_def priv_renderLine_def shapeOf_def
      square4_def hole4_def getTension_def getBezier_def getClosed_def getExterior_def
      getInteriors_def Let_def lineLoop.simps js_index_def)

section \<open>Tension mode\<close>

lemma expandPoints_length:
  "even (length p) \<Longrightarrow> length (Util_expandPoints p t) = 3 * (length p - 4)"
  by (induction p t rule: Util_expandPoints.induct) (simp_all add: Let_def)


lemma getTensionPoints_fresh:
  "cache_tensionPoints s = None \<Longrightarrow> snd (getTensionPoints s) = priv_getTensionPoints s"
  by (simp add: getTensionPoints_def priv_getCache_def Let_def)






section \<open>Tension mode of an open shape\<close>

lemma renderLine_open_exterior:
  assumes "\<not> getClosed s" and "getTension s \<noteq> 0" and "length (getExterior s) > 4"
    and "even (length (getExterior s))" and "cache_tensionPoints s = None"
  shows "snd (priv_renderLine s (getExterior s))
         = (let p = getExterior s; tp = Util_expandPoints p (getTension s)
            in MoveTo (js_index p 0) (js_index p 1)
               # QuadraticCurveTo (js_index tp 0) (js_index tp 1) (js_index tp 2) (js_index tp 3)
               # map (\<lambda>k. bezierCurveTo_from tp (4 + 6 * k)) [0 ..< length p div 2 - 3]
               @ [QuadraticCurveTo (js_index tp (int (length tp) - 2))
                    (js_index tp (int (length tp) - 1))
                    (js_index p (int (length p) - 2)) (js_index p (int (length p) - 1))])"
proof -
  let ?p = "getExterior s"
  let ?tp = "Util_expandPoints ?p (getTension s)"
  obtain N where N: "length ?p = 2 * N" using assms(4) by (auto elim: evenE)
  with assms(3) have N3: "3 \<le> N" by simp
  have len: "length ?tp = 6 * (N - 2)"
    using assms(4) N by (simp add: expandPoints_length)
  have loop: "tensionLoop ?tp 4 = map (\<lambda>k. bezierCurveTo_from ?tp (4 + 6 * k)) [0 ..< N - 3]"
  proof (rule tensionLoop_map)
    show "length ?tp \<le> 4 + 2 + 6 * (N - 3)" using N3 by (simp add: len)
    show "4 + 2 + 6 * (N - 3 - 1) < length ?tp" if "0 < N - 3"
      using that by (simp add: len)
  qed
  have tp: "snd (getTensionPoints s) = ?tp"
    using assms(1,5) by (simp add: getTensionPoints_fresh priv_getTensionPoints_def)
  show ?thesis
    using assms(1,2,3) N
    by (simp add: renderLine_tension tp loop Let_def)
qed

text \<open>
  C5, the failing input.  An open shape with tension 1, an exterior of five points and an
  interior ring of three points: rendering the interior ring reads the tension points of
  the exterior, so that two bezierCurveTo calls lie between the two quadraticCurveTo calls
  where the three points of the ring call for none.
\<close>

theorem C5_interior_ring_failing_input:
  "map isBezier (snd (priv_renderLine (shapeOf pent5 [Some tri3] 1 False False) tri3))
     = [False, False, True, True, False]
   \<and> map isQuadratic (snd (priv_renderLine (shapeOf pent5 [Some tri3] 1 False False) tri3))
     = [False, True, False, False, True]
   \<and> length tri3 div 2 - 3 = 0
   \<and> cache_tensionPoints (fst (priv_renderLine (shapeOf pent5 [Some tri3] 1 False False) tri3))
     = Some (Util_expandPoints pent5 1)"
proof -
  let ?s = "shapeOf pent5 [Some tri3] 1 False False"
  let ?tp = "Util_expandPoints pent5 1"
  have h: "getTension ?s \<noteq> 0" "length tri3 > 4" "\<not> getClosed ?s"
    "cache_tensionPoints ?s = None"
    by (simp_all add: shapeOf_def tri3_def getTension_def getClosed_def)
  have g: "getTensionPoints ?s = (?s\<lparr>cache_tensionPoints := Some ?tp\<rparr>, ?tp)"
    by (simp add: getTensionPoints_def priv_getCache_def priv_getTensionPoints_def shapeOf_def
        getClosed_def getExterior_def getTension_def Let_def)
  have l5: "length pent5 = 10" by (simp add: pent5_def)
  have len: "length ?tp = 18"
    by (simp add: expandPoints_length l5)
  have loop: "tensionLoop ?tp 4 = map (\<lambda>k. bezierCurveTo_from ?tp (4 + 6 * k)) [0 ..< 2]"
    by (rule tensionLoop_map) (simp_all add: len)
  have u: "[0 ..< 2] = [0, Suc 0]" by (simp add: upt_rec)
  note r = renderLine_tension [OF h(1,2)]
  have a: "map isBezier (snd (priv_renderLine ?s tri3)) = [False, False, True, True, False]"
    "map isQuadratic (snd (priv_renderLine ?s tri3)) = [False, True, False, False, True]"
    "cache_tensionPoints (fst (priv_renderLine ?s tri3)) = Some ?tp"
    using h(3) by (simp_all add: r g loop u bezierCurveTo_from_def Let_def)
  have n: "length tri3 div 2 - 3 = 0" by (simp add: tri3_def)
  from a n show ?thesis by simp
qed

section \<open>The cache across property changes\<close>

lemma setTension_clears: "cache_tensionPoints (setTension v s) = None"
  by (simp add: setTension_def fire_def subscribed_def priv_clearCache_def)

lemma setClosed_clears: "cache_tensionPoints (setClosed v s) = None"
  by (simp add: setClosed_def fire_def subscribed_def priv_clearCache_def)

lemma setBezier_clears: "cache_tensionPoints (setBezier v s) = None"
  by (simp add: setBezier_def fire_def subscribed_def priv_clearCache_def)

lemma setExterior_keeps: "cache_tensionPoints (setExterior v s) = cache_tensionPoints s"
  by (simp add: setExterior_def fire_def subscribed_def)

text \<open>
  C1, the failing input.  After the exterior of a shape with tension 1 is replaced, the next
  read of the tension points returns the list cached for the old exterior (one inner point,
  six entries) and not the list computed from the new exterior (two inner points, twelve
  entries): the shape listens for \<open>pointsChange\<close>, the attribute is named \<open>exterior\<close>.
\<close>

theorem C1_stale_after_setExterior:
  "getExterior after_setExterior = quad4
   \<and> cache_tensionPoints after_setExterior = Some (Util_expandPoints tri3 1)
   \<and> snd (getTensionPoints after_setExterior) = Util_expandPoints tri3 1
   \<and> priv_getTensionPoints after_setExterior = Util_expandPoints quad4 1
   \<and> length (snd (getTensionPoints after_setExterior)) = 6
   \<and> length (priv_getTensionPoints after_setExterior) = 12
   \<and> snd (getTensionPoints after_setExterior) \<noteq> priv_getTensionPoints after_setExterior"
proof -
  have s: "after_setExterior
           = \<lparr>attr_exterior = quad4, attr_interiors = [], attr_tension = 1,
               attr_closed = False, attr_bezier = False,
               cache_tensionPoints = Some (Util_expandPoints tri3 1)\<rparr>"
    by (simp add: after_setExterior_def setExterior_def setTension_def setInteriors_def init_def
        default_config_def fire_def subscribed_def priv_clearCache_def getTensionPoints_def
        priv_getCache_def priv_getTensionPoints_def getClosed_def getExterior_def getTension_def
        Let_def)
  have n3: "length tri3 = 6" by (simp add: tri3_def)
  have n4: "length quad4 = 8" by (simp add: quad4_def)
  have l3: "length (Util_expandPoints tri3 1) = 6"
    by (simp add: expandPoints_length n3)
  have l4: "length (Util_expandPoints quad4 1) = 12"
    by (simp add: expandPoints_length n4)
  have c: "snd (getTensionPoints after_setExterior) = Util_expandPoints tri3 1"
    by (simp add: s getTensionPoints_def priv_getCache_def)
  have f: "priv_getTensionPoints after_setExterior = Util_expandPoints quad4 1"
    by (simp add: s priv_getTensionPoints_def getClosed_def getExterior_def getTension_def)
  have ne: "Util_expandPoints tri3 1 \<noteq> Util_expandPoints quad4 1"
    using l3 l4 by (metis numeral_eq_iff semiring_norm(88) num.inject(1) num.distinct(1))
  show ?thesis
    using ne by (simp add: c f l3 l4) (simp add: s getExterior_def)
qed

section \<open>The bounding box\<close>

lemma Math_min_simps:
  "Math_min None x = None" "Math_min a None = None" "Math_min (Some u) (Some v) = Some (min u v)"
  by (simp_all add: Math_min_def split: option.split)

lemma Math_max_simps:
  "Math_max None x = None" "Math_max a None = None" "Math_max (Some u) (Some v) = Some (max u v)"
  by (simp_all add: Math_max_def split: option.split)

lemma fold_Math_min: "fold (\<lambda>x m. Math_min m x) xs a = coordMin (set (a # xs))"
proof (induction xs arbitrary: a)
  case Nil
  show ?case by (cases a) (simp_all add: coordMin_def)
next
  case (Cons x xs)
  show ?case
  proof (cases a)
    case None
    then show ?thesis by (simp add: Cons.IH Math_min_simps coordMin_def)
  next
    case a: (Some u)
    show ?thesis
    proof (cases x)
      case None
      then show ?thesis by (simp add: Cons.IH Math_min_simps coordMin_def a)
    next
      case x: (Some v)
      show ?thesis
      proof (cases "the ` set xs = {}")
        case True
        then show ?thesis by (simp add: Cons.IH Math_min_simps coordMin_def a x)
      next
        case False
        then have "Min (insert (min u v) (the ` set xs)) = Min (insert u (insert v (the ` set xs)))"
          by (simp add: min.assoc)
        then show ?thesis by (simp add: Cons.IH Math_min_simps coordMin_def a x)
      qed
    qed
  qed
qed

lemma fold_Math_max: "fold (\<lambda>x m. Math_max m x) xs a = coordMax (set (a # xs))"
proof (induction xs arbitrary: a)
  case Nil
  show ?case by (cases a) (simp_all add: coordMax_def)
next
  case (Cons x xs)
  show ?case
  proof (cases a)
    case None
    then show ?thesis by (simp add: Cons.IH Math_max_simps coordMax_def)
  next
    case a: (Some u)
    show ?thesis
    proof (cases x)
      case None
      then show ?thesis by (simp add: Cons.IH Math_max_simps coordMax_def a)
    next
      case x: (Some v)
      show ?thesis
      proof (cases "the ` set xs = {}")
        case True
        then show ?thesis by (simp add: Cons.IH Math_max_simps coordMax_def a x)
      next
        case False
        then have "Max (insert (max u v) (the ` set xs)) = Max (insert u (insert v (the ` set xs)))"
          by (simp add: max.assoc)
        then show ?thesis by (simp add: Cons.IH Math_max_simps coordMax_def a x)
      qed
    qed
  qed
qed

lemma js_index_pair:
  assumes "2 * i + 1 < length p"
  shows "js_index p (int i * 2) = p ! (2 * i)" and "js_index p (int i * 2 + 1) = p ! (2 * i + 1)"
proof -
  have e: "int i * 2 = int (2 * i)" "int i * 2 + 1 = int (2 * i + 1)" by simp_all
  show "js_index p (int i * 2) = p ! (2 * i)"
    unfolding e using assms by (simp only: js_index_nat) simp
  show "js_index p (int i * 2 + 1) = p ! (2 * i + 1)"
    unfolding e(2) using assms by (simp only: js_index_nat) simp
qed

lemma even_next: "even (L::nat) \<Longrightarrow> n < L \<Longrightarrow> even n \<Longrightarrow> n + 1 < L"
  by (metis Suc_eq_plus1 Suc_lessI even_Suc)

lemma scanLoop_fold:
  "even (length points) \<Longrightarrow> 2 * i \<le> length points \<Longrightarrow>
   scanLoop points i a b c d =
     (fold (\<lambda>x m. Math_min m x) (map fst (pairs (drop (2 * i) points))) a,
      fold (\<lambda>x m. Math_max m x) (map fst (pairs (drop (2 * i) points))) b,
      fold (\<lambda>y m. Math_min m y) (map snd (pairs (drop (2 * i) points))) c,
      fold (\<lambda>y m. Math_max m y) (map snd (pairs (drop (2 * i) points))) d)"
proof (induction points i a b c d rule: scanLoop.induct)
  case (1 points i a b c d)
  show ?case
  proof (cases "2 * i < length points")
    case False
    with 1(3) have "drop (2 * i) points = []" by simp
    with False show ?thesis by (subst scanLoop.simps) simp
  next
    case True
    have n1: "2 * i + 1 < length points"
      using 1(2) True by (intro even_next) simp_all
    have d: "drop (2 * i) points
             = points ! (2 * i) # points ! (2 * i + 1) # drop (2 * (i + 1)) points"
      using drop_two [OF n1] by simp
    have step: "scanLoop points i a b c d
                = scanLoop points (i + 1) (Math_min a (points ! (2 * i)))
                    (Math_max b (points ! (2 * i))) (Math_min c (points ! (2 * i + 1)))
                    (Math_max d (points ! (2 * i + 1)))"
      using True by (subst scanLoop.simps) (simp add: js_index_pair [OF n1] Let_def)
    have ih: "scanLoop points (i + 1) (Math_min a (points ! (2 * i)))
                    (Math_max b (points ! (2 * i))) (Math_min c (points ! (2 * i + 1)))
                    (Math_max d (points ! (2 * i + 1)))
              = (fold (\<lambda>x m. Math_min m x) (map fst (pairs (drop (2 * (i + 1)) points)))
                   (Math_min a (points ! (2 * i))),
                 fold (\<lambda>x m. Math_max m x) (map fst (pairs (drop (2 * (i + 1)) points)))
                   (Math_max b (points ! (2 * i))),
                 fold (\<lambda>y m. Math_min m y) (map snd (pairs (drop (2 * (i + 1)) points)))
                   (Math_min c (points ! (2 * i + 1))),
                 fold (\<lambda>y m. Math_max m y) (map snd (pairs (drop (2 * (i + 1)) points)))
                   (Math_max d (points ! (2 * i + 1))))"
      using 1(1) [OF True refl refl 1(2)] n1 js_index_pair [OF n1] by simp
    show ?thesis
      unfolding step ih d by simp
  qed
qed

lemma first_point:
  assumes "even (length points)" and "points \<noteq> []"
  shows "js_index points 0 \<in> fst ` set (pairs points)"
    and "js_index points 1 \<in> snd ` set (pairs points)"
proof -
  from assms obtain x y rest where p: "points = x # y # rest"
    by (cases points; cases "tl points") auto
  show "js_index points 0 \<in> fst ` set (pairs points)"
    by (simp add: p js_index_def)
  show "js_index points 1 \<in> snd ` set (pairs points)"
    by (simp add: p js_index_def)
qed

lemma selfRectOf_pairs:
  assumes "even (length points)"
  shows "selfRectOf points
         = \<lparr>rect_x = Math_round (coordMin (fst ` set (pairs points))),
            rect_y = Math_round (coordMin (snd ` set (pairs points))),
            rect_width = Math_round (js_minus (coordMax (fst ` set (pairs points)))
                                              (coordMin (fst ` set (pairs points)))),
            rect_height = Math_round (js_minus (coordMax (snd ` set (pairs points)))
                                               (coordMin (snd ` set (pairs points))))\<rparr>"
proof (cases "points = []")
  case True
  then show ?thesis
    by (simp add: selfRectOf_def scanLoop.simps js_index_def coordMin_def coordMax_def
        Math_round_def js_minus_def)
next
  case False
  from first_point [OF assms False]
  have i: "insert (js_index points 0) (fst ` set (pairs points)) = fst ` set (pairs points)"
    "insert (js_index points 1) (snd ` set (pairs points)) = snd ` set (pairs points)"
    by auto
  show ?thesis
    using assms i
    by (simp add: selfRectOf_def scanLoop_fold fold_Math_min fold_Math_max Let_def)
qed

lemma pairs_members: "(x, y) \<in> set (pairs p) \<Longrightarrow> x \<in> set p \<and> y \<in> set p"
  by (induction p rule: pairs.induct) auto

lemma pairs_append: "even (length r) \<Longrightarrow> pairs (r @ q) = pairs r @ pairs q"
  by (induction r rule: pairs.induct) simp_all

lemma set_pairs_rotate_point:
  assumes "even (length q)"
  shows "set (pairs (rotate1 (rotate1 q))) = set (pairs q)"
proof -
  consider "q = []" | x y rest where "q = x # y # rest"
    using assms by (cases q; cases "tl q") auto
  then show ?thesis
  proof cases
    case 1
    then show ?thesis by simp
  next
    case 2
    with assms have "even (length rest)" by simp
    then have "pairs (rest @ [x, y]) = pairs rest @ [(x, y)]"
      by (simp add: pairs_append)
    with 2 show ?thesis by auto
  qed
qed

lemma set_pairs_rotate:
  "even (length p) \<Longrightarrow> set (pairs (rotate (2 * k) p)) = set (pairs p)"
proof (induction k)
  case 0
  show ?case by simp
next
  case (Suc k)
  have "rotate (2 * Suc k) p = rotate1 (rotate1 (rotate (2 * k) p))" by simp
  moreover have "even (length (rotate (2 * k) p))" using Suc.prems by simp
  ultimately show ?case
    using Suc.IH [OF Suc.prems] by (simp only: set_pairs_rotate_point)
qed

lemma coordMin_numbers:
  "S \<noteq> {} \<Longrightarrow> None \<notin> S \<Longrightarrow> coordMin S = Some (Min (the ` S))"
  by (simp add: coordMin_def)

lemma coordMax_numbers:
  "S \<noteq> {} \<Longrightarrow> None \<notin> S \<Longrightarrow> coordMax S = Some (Max (the ` S))"
  by (simp add: coordMax_def)

lemma selfRectOf_numbers:
  assumes "points \<noteq> []" and "even (length points)" and "None \<notin> set points"
  shows "selfRectOf points
         = (let X = the ` fst ` set (pairs points); Y = the ` snd ` set (pairs points)
            in \<lparr>rect_x = Some (of_int (round (Min X))),
                rect_y = Some (of_int (round (Min Y))),
                rect_width = Some (of_int (round (Max X - Min X))),
                rect_height = Some (of_int (round (Max Y - Min Y)))\<rparr>)"
proof -
  from first_point [OF assms(2,1)]
  have ne: "fst ` set (pairs points) \<noteq> {}" "snd ` set (pairs points) \<noteq> {}" by auto
  have nn: "None \<notin> fst ` set (pairs points)" "None \<notin> snd ` set (pairs points)"
    using assms(3) pairs_members [of _ _ points] by force+
  show ?thesis
    by (simp add: selfRectOf_pairs [OF assms(2)] coordMin_numbers [OF ne(1) nn(1)]
        coordMin_numbers [OF ne(2) nn(2)] coordMax_numbers [OF ne(1) nn(1)]
        coordMax_numbers [OF ne(2) nn(2)] Math_round_def js_minus_def Let_def)
qed

lemma selfRectPoints_interiors:
  "selfRectPoints (s\<lparr>attr_interiors := i\<rparr>) = selfRectPoints s"
  by (simp add: selfRectPoints_def priv_getTensionPoints_def priv_getTensionPointsClosed_def
      getTension_def getClosed_def getExterior_def)

text \<open>
  C7.  The bounding box is computed from the tension points when tension is not 0 and from
  the exterior otherwise; interior rings do not contribute.  For a non-empty list of points
  whose coordinates are numbers it is the rounded least x, the rounded least y, the rounded
  difference of greatest and least x and the rounded difference of greatest and least y.
  The square \<open>[0,0, 100,0, 100,100, 0,100]\<close> with tension 0 has the box 0, 0, 100, 100.
\<close>

theorem C7_bounding_box:
  "(selfRectPoints s \<noteq> [] \<and> even (length (selfRectPoints s)) \<and> None \<notin> set (selfRectPoints s)
      \<longrightarrow> getSelfRect s
          = (let X = the ` fst ` set (pairs (selfRectPoints s));
                 Y = the ` snd ` set (pairs (selfRectPoints s))
             in \<lparr>rect_x = Some (of_int (round (Min X))),
                 rect_y = Some (of_int (round (Min Y))),
                 rect_width = Some (of_int (round (Max X - Min X))),
                 rect_height = Some (of_int (round (Max Y - Min Y)))\<rparr>))
   \<and> (getTension s \<noteq> 0 \<longrightarrow> selfRectPoints s = priv_getTensionPoints s)
   \<and> (getTension s = 0 \<longrightarrow> selfRectPoints s = getExterior s)
   \<and> getSelfRect (s\<lparr>attr_interiors := i\<rparr>) = getSelfRect s
   \<and> getSelfRect (shapeOf square4 [Some hole4] 0 True False)
       = \<lparr>rect_x = Some 0, rect_y = Some 0, rect_width = Some 100, rect_height = Some 100\<rparr>"
proof (intro conjI impI)
  assume "selfRectPoints s \<noteq> [] \<and> even (length (selfRectPoints s))
          \<and> None \<notin> set (selfRectPoints s)"
  then show "getSelfRect s
          = (let X = the ` fst ` set (pairs (selfRectPoints s));
                 Y = the ` snd ` set (pairs (selfRectPoints s))
             in \<lparr>rect_x = Some (of_int (round (Min X))),
                 rect_y = Some (of_int (round (Min Y))),
                 rect_width = Some (of_int (round (Max X - Min X))),
                 rect_height = Some (of_int (round (Max Y - Min Y)))\<rparr>)"
    unfolding getSelfRect_def by (intro selfRectOf_numbers) simp_all
next
  assume "getTension s \<noteq> 0"
  then show "selfRectPoints s = priv_getTensionPoints s" by (simp add: selfRectPoints_def)
next
  assume "getTension s = 0"
  then show "selfRectPoints s = getExterior s" by (simp add: selfRectPoints_def)
next
  show "getSelfRect (s\<lparr>attr_interiors := i\<rparr>) = getSelfRect s"
    by (simp add: getSelfRect_def selfRectPoints_interiors)
next
  show "getSelfRect (shapeOf square4 [Some hole4] 0 True False)
       = \<lparr>rect_x = Some 0, rect_y = Some 0, rect_width = Some 100, rect_height = Some 100\<rparr>"
    by (simp add: getSelfRect_def selfRectPoints_def selfRectOf_def shapeOf_def square4_def
        getTension_def getExterior_def scanLoop.simps js_index_def Math_min_simps Math_max_simps
        Math_round_def js_minus_def Let_def)
qed

theorem C7_bounding_box_witness:
  "(selfRectPoints (shapeOf square4 [Some hole4] 0 True False) \<noteq> []
      \<and> even (length (selfRectPoints (shapeOf square4 [Some hole4] 0 True False)))
      \<and> None \<notin> set (selfRectPoints (shapeOf square4 [Some hole4] 0 True False))
      \<and> getTension (shapeOf square4 [Some hole4] 0 True False) = 0)
   \<and> selfRectPoints (shapeOf square4 [Some hole4] 0 True False) = square4
   \<and> rect_width (getSelfRect (shapeOf square4 [Some hole4] 0 True False))
       = Some (of_int (round (Max (the ` fst ` set (pairs square4))
                              - Min (the ` fst ` set (pairs square4)))))
   \<and> getTension (shapeOf tri3 [] 1 False False) \<noteq> 0
   \<and> selfRectPoints (shapeOf tri3 [] 1 False False)
       = priv_getTensionPoints (shapeOf tri3 [] 1 False False)"
proof -
  let ?s = "shapeOf square4 [Some hole4] 0 True False"
  have t: "getTension ?s = 0" by (simp add: shapeOf_def getTension_def)
  have p: "selfRectPoints ?s = square4"
    using C7_bounding_box [of ?s, THEN conjunct2, THEN conjunct2, THEN conjunct1] t
    by (simp add: shapeOf_def getExterior_def)
  have h: "selfRectPoints ?s \<noteq> [] \<and> even (length (selfRectPoints ?s))
           \<and> None \<notin> set (selfRectPoints ?s)"
    unfolding p by (simp add: square4_def)
  have w: "rect_width (getSelfRect ?s)
       = Some (of_int (round (Max (the ` fst ` set (pairs square4))
                              - Min (the ` fst ` set (pairs square4)))))"
    using C7_bounding_box [of ?s, THEN conjunct1] h by (simp add: p Let_def)
  have t3: "getTension (shapeOf tri3 [] 1 False False) \<noteq> 0"
    by (simp add: shapeOf_def getTension_def)
  have p3: "selfRectPoints (shapeOf tri3 [] 1 False False)
       = priv_getTensionPoints (shapeOf tri3 [] 1 False False)"
    using C7_bounding_box [of "shapeOf tri3 [] 1 False False", THEN conjunct2, THEN conjunct1] t3
    by simp
  from h t p w t3 p3 show ?thesis by simp
qed

text \<open>
  C8.  With tension 0, rotating an exterior ring of whole points so that any of its points
  comes first leaves the bounding box unchanged.
\<close>

theorem C8_rotation_invariant:
  assumes "even (length (getExterior s))" and "getTension s = 0"
  shows "getSelfRect (s\<lparr>attr_exterior := rotate (2 * k) (getExterior s)\<rparr>) = getSelfRect s"
proof -
  have a: "selfRectPoints s = getExterior s"
    using assms(2) by (simp add: selfRectPoints_def)
  have b: "selfRectPoints (s\<lparr>attr_exterior := rotate (2 * k) (getExterior s)\<rparr>)
           = rotate (2 * k) (getExterior s)"
    using assms(2) by (simp add: selfRectPoints_def getTension_def getExterior_def)
  have e: "even (length (rotate (2 * k) (getExterior s)))" using assms(1) by simp
  show ?thesis
    by (simp add: getSelfRect_def a b selfRectOf_pairs [OF e] selfRectOf_pairs [OF assms(1)]
        set_pairs_rotate [OF assms(1)])
qed

theorem C8_rotation_invariant_witness:
  "(even (length (getExterior (shapeOf square4 [] 0 True False)))
      \<and> getTension (shapeOf square4 [] 0 True False) = 0)
   \<and> getSelfRect ((shapeOf square4 [] 0 True False)
        \<lparr>attr_exterior := [Some 100, Some 0, Some 100, Some 100, Some 0, Some 100, Some 0, Some 0]\<rparr>)
     = getSelfRect (shapeOf square4 [] 0 True False)"
proof -
  let ?s = "shapeOf square4 [] 0 True False"
  have h: "even (length (getExterior ?s))" "getTension ?s = 0"
    by (simp_all add: shapeOf_def square4_def getExterior_def getTension_def)
  have r: "rotate (2 * 1) (getExterior ?s)
           = [Some 100, Some 0, Some 100, Some 100, Some 0, Some 100, Some 0, Some 0]"
    by (simp add: shapeOf_def square4_def getExterior_def rotate1_def numeral_2_eq_2)
  from C8_rotation_invariant [OF h, of 1] h show ?thesis
    by (simp only: r)
qed

section \<open>The bounding box of an empty point list\<close>






section \<open>The indexed accessor\<close>

lemma setInteriors_attrs:
  "setInteriors v s = s\<lparr>attr_interiors := v\<rparr>"
  by (simp add: setInteriors_def fire_def subscribed_def)

lemma js_assign_read: "js_index (js_assign a i v) (int i) = Some v"
  by (simp add: js_assign_def js_index_nat nth_append)

lemma js_assign_others:
  "j < length a \<Longrightarrow> j \<noteq> i \<Longrightarrow> js_assign a i v ! j = a ! j"
  by (simp add: js_assign_def nth_append)

text \<open>
  C9.  Called with one argument, \<open>interior\<close> returns the slot at that index and leaves the
  shape as it is.  Called with two, it stores the ring at that index (every other slot and
  attribute and the cache as before) and returns the shape.  Called with none or with three
  or more, it throws the error \<open>Unknown operation polyline\<close> and the shape is unchanged.
\<close>

theorem C9_interior_accessor:
  "(arguments_length args = 1 \<longrightarrow>
      interior args s = (s, Inr (Slot (js_index (getInteriors s) (int (arguments0 args))))))
   \<and> (arguments_length args = 2 \<longrightarrow>
        snd (interior args s) = Inr This
        \<and> js_index (getInteriors (fst (interior args s))) (int (arguments0 args))
            = Some (arguments1 args)
        \<and> (\<forall>j < length (getInteriors s). j \<noteq> arguments0 args \<longrightarrow>
              getInteriors (fst (interior args s)) ! j = getInteriors s ! j)
        \<and> (arguments0 args < length (getInteriors s) \<longrightarrow>
              getInteriors (fst (interior args s))
                = (getInteriors s)[arguments0 args := Some (arguments1 args)])
        \<and> fst (interior args s)
            = s\<lparr>attr_interiors := getInteriors (fst (interior args s))\<rparr>)
   \<and> (arguments_length args \<noteq> 1 \<and> arguments_length args \<noteq> 2 \<longrightarrow>
        interior args s = (s, Inl (Error ''Unknown operation polyline'')))
   \<and> interior Args0 s = (s, Inl (Error ''Unknown operation polyline''))
   \<and> interior (ArgsMore i v k) s = (s, Inl (Error ''Unknown operation polyline''))"
proof (intro conjI impI allI)
  assume "arguments_length args = 1"
  then show "interior args s
             = (s, Inr (Slot (js_index (getInteriors s) (int (arguments0 args)))))"
    by (simp add: interior_def)
next
  assume h: "arguments_length args = 2"
  then have w: "interior args s
      = (s\<lparr>attr_interiors := js_assign (getInteriors s) (arguments0 args) (arguments1 args)\<rparr>,
         Inr This)"
    by (simp add: interior_def Let_def setInteriors_attrs)
  show "snd (interior args s) = Inr This" by (simp add: w)
  show "js_index (getInteriors (fst (interior args s))) (int (arguments0 args))
          = Some (arguments1 args)"
    by (simp add: w getInteriors_def js_assign_read)
  show "getInteriors (fst (interior args s)) ! j = getInteriors s ! j"
    if "j < length (getInteriors s)" "j \<noteq> arguments0 args" for j
    using that by (simp add: w getInteriors_def js_assign_others)
  show "getInteriors (fst (interior args s))
          = (getInteriors s)[arguments0 args := Some (arguments1 args)]"
    if "arguments0 args < length (getInteriors s)"
    using that by (simp add: w getInteriors_def js_assign_def)
  show "fst (interior args s) = s\<lparr>attr_interiors := getInteriors (fst (interior args s))\<rparr>"
    by (simp add: w getInteriors_def)
next
  assume "arguments_length args \<noteq> 1 \<and> arguments_length args \<noteq> 2"
  then show "interior args s = (s, Inl (Error ''Unknown operation polyline''))"
    by (simp add: interior_def)
next
  show "interior Args0 s = (s, Inl (Error ''Unknown operation polyline''))"
    by (simp add: interior_def)
next
  show "interior (ArgsMore i v k) s = (s, Inl (Error ''Unknown operation polyline''))"
    by (simp add: interior_def)
qed

theorem C9_interior_accessor_witness:
  "arguments_length (Args1 0) = 1
   \<and> interior (Args1 0) (shapeOf square4 [Some hole4] 0 True False)
       = (shapeOf square4 [Some hole4] 0 True False, Inr (Slot (Some hole4)))
   \<and> arguments_length (Args2 0 tri3) = 2
   \<and> arguments0 (Args2 0 tri3) < length (getInteriors (shapeOf square4 [Some hole4] 0 True False))
   \<and> snd (interior (Args2 0 tri3) (shapeOf square4 [Some hole4] 0 True False)) = Inr This
   \<and> getInteriors (fst (interior (Args2 0 tri3) (shapeOf square4 [Some hole4] 0 True False)))
       = [Some tri3]
   \<and> (arguments_length Args0 \<noteq> 1 \<and> arguments_length Args0 \<noteq> 2)
   \<and> interior Args0 (shapeOf square4 [Some hole4] 0 True False)
       = (shapeOf square4 [Some hole4] 0 True False, Inl (Error ''Unknown operation polyline''))"
proof -
  let ?s = "shapeOf square4 [Some hole4] 0 True False"
  have g: "getInteriors ?s = [Some hole4]" by (simp add: shapeOf_def getInteriors_def)
  have a: "interior (Args1 0) ?s = (?s, Inr (Slot (Some hole4)))"
    using C9_interior_accessor [of "Args1 0" ?s, THEN conjunct1]
    by (simp add: g js_index_def)
  have b: "snd (interior (Args2 0 tri3) ?s) = Inr This
           \<and> getInteriors (fst (interior (Args2 0 tri3) ?s)) = [Some tri3]"
    using C9_interior_accessor [of "Args2 0 tri3" ?s, THEN conjunct2, THEN conjunct1]
    by (simp add: g)
  have c: "interior Args0 ?s = (?s, Inl (Error ''Unknown operation polyline''))"
    using C9_interior_accessor [of Args0 ?s, THEN conjunct2, THEN conjunct2, THEN conjunct1]
    by simp
  from a b c g show ?thesis by simp
qed

end
